theory Spec2Isabelle
  imports Complex_Main "HOL-Library.Multiset"
begin

section \<open>PSM ingestion and spectrum keys (03\_load\_psm\_clean.py)\<close>

text \<open>
  A shallow embedding of the PSM loading stage. A Python \<open>str\<close> is a \<open>string\<close>, read as
  a list of code points below 256; in that range the decimal digits known to \<open>\d\<close> and to
  \<open>int()\<close> are exactly \<open>0\<close> to \<open>9\<close>. Python integers are \<open>int\<close>. A value that Python
  holds as a float is carried as the exact decimal number written in its source text
  (a \<open>rat\<close>); Python rounds that number to the nearest double.
\<close>

subsection \<open>Characters, \<open>int()\<close> and \<open>str()\<close>\<close>

definition is_digit :: "char \<Rightarrow> bool" where
  "is_digit c = (48 \<le> (of_char c :: nat) \<and> (of_char c :: nat) \<le> 57)"

definition digit_val :: "char \<Rightarrow> nat" where
  "digit_val c = of_char c - 48"

definition digit_char :: "nat \<Rightarrow> char" where
  "digit_char d = char_of (48 + d)"

text \<open>The white space that \<open>int()\<close> skips at both ends: tab to carriage return and
  space, and of the code points above 127 next line (133) and no-break space (160).\<close>

definition is_space :: "char \<Rightarrow> bool" where
  "is_space c = ((of_char c :: nat) \<in> {9, 10, 11, 12, 13, 32, 133, 160})"

definition strip :: "string \<Rightarrow> string" where
  "strip s = rev (dropWhile is_space (rev (dropWhile is_space s)))"

text \<open>The digits of an integer literal after its first digit: a single underscore
  may stand between two digits.\<close>

fun digits_tail :: "nat \<Rightarrow> string \<Rightarrow> nat option" where
  "digits_tail acc [] = Some acc"
| "digits_tail acc [c] = (if is_digit c then Some (10 * acc + digit_val c) else None)"
| "digits_tail acc (c # d # cs) =
     (if is_digit c then digits_tail (10 * acc + digit_val c) (d # cs)
      else if c = CHR ''_'' \<and> is_digit d then digits_tail (10 * acc + digit_val d) cs
      else None)"

definition digits_value :: "string \<Rightarrow> nat option" where
  "digits_value s =
     (case s of
        [] \<Rightarrow> None
      | c # cs \<Rightarrow> if is_digit c then digits_tail (digit_val c) cs else None)"

text \<open>\<open>int(s)\<close> in base ten; \<open>None\<close> is the \<open>ValueError\<close>.\<close>

definition py_int :: "string \<Rightarrow> int option" where
  "py_int s =
     (case strip s of
        [] \<Rightarrow> None
      | c # cs \<Rightarrow>
          if c = CHR ''-'' then map_option (\<lambda>n. - int n) (digits_value cs)
          else if c = CHR ''+'' then map_option int (digits_value cs)
          else map_option int (digits_value (c # cs)))"

text \<open>The value of a run of digits, as \<open>int()\<close> and \<open>float()\<close> read a \<open>\d+\<close> group.\<close>

definition nat_of_digits :: "string \<Rightarrow> nat" where
  "nat_of_digits s = foldl (\<lambda>a c. 10 * a + digit_val c) 0 s"

text \<open>\<open>str(n)\<close>, which an f-string applies to an integer.\<close>

fun str_nat :: "nat \<Rightarrow> string" where
  "str_nat n = (if n < 10 then [digit_char n] else str_nat (n div 10) @ [digit_char (n mod 10)])"

declare str_nat.simps [simp del]

definition str_int :: "int \<Rightarrow> string" where
  "str_int i = (if i < 0 then CHR ''-'' # str_nat (nat (- i)) else str_nat (nat i))"

subsection \<open>\<open>str.rsplit\<close> with a one-character separator\<close>

fun split_left :: "char \<Rightarrow> nat \<Rightarrow> string \<Rightarrow> string list" where
  "split_left sep 0 s = [s]"
| "split_left sep (Suc n) s =
     (if sep \<in> set s
      then takeWhile (\<lambda>c. c \<noteq> sep) s # split_left sep n (tl (dropWhile (\<lambda>c. c \<noteq> sep) s))
      else [s])"

text \<open>\<open>s.rsplit(sep, maxsplit)\<close>: the splits are counted from the right end.\<close>

definition rsplit :: "char \<Rightarrow> nat \<Rightarrow> string \<Rightarrow> string list" where
  "rsplit sep maxsplit s = rev (map rev (split_left sep maxsplit (rev s)))"

subsection \<open>Cell values\<close>

text \<open>What a cell of a data frame holds. \<open>PNone\<close> is the missing value (\<open>None\<close>, NaN).\<close>

datatype pyval = PNone | PStr string | PInt int | PNum rat | PBool bool

subsection \<open>Parsers\<close>

text \<open>The two patterns of \<open>parse_folder_name\<close> are sequences of \<open>(\d+)\<close> groups and
  literal text. \<open>re.match\<close> anchors at the start only; a group is greedy and gives
  characters back one at a time when the rest of the pattern fails.\<close>

datatype rx = Digits | Lit string

fun first_some :: "(nat \<Rightarrow> 'a option) \<Rightarrow> nat \<Rightarrow> 'a option" where
  "first_some f 0 = None"
| "first_some f (Suc n) = (case f (Suc n) of Some r \<Rightarrow> Some r | None \<Rightarrow> first_some f n)"

fun re_match :: "rx list \<Rightarrow> string \<Rightarrow> string list option" where
  "re_match [] s = Some []"
| "re_match (Lit l # p) s =
     (if take (length l) s = l then re_match p (drop (length l) s) else None)"
| "re_match (Digits # p) s =
     first_some (\<lambda>n. map_option (\<lambda>gs. take n s # gs) (re_match p (drop n s)))
       (length (takeWhile is_digit s))"

definition decimal_pattern :: "rx list" where
  "decimal_pattern =
     [Digits, Lit ''_'', Digits, Lit ''_'', Digits, Lit ''_'', Digits, Lit ''mz_'', Digits]"

definition integer_pattern :: "rx list" where
  "integer_pattern = [Digits, Lit ''_'', Digits, Lit ''_'', Digits, Lit ''mz_'', Digits]"

text \<open>\<open>float(f"{a}.{b}")\<close> for two digit groups.\<close>

definition float_of_groups :: "string \<Rightarrow> string \<Rightarrow> rat" where
  "float_of_groups a b = of_nat (nat_of_digits a) + of_nat (nat_of_digits b) / 10 ^ length b"

definition parse_folder_name :: "string \<Rightarrow> rat option \<times> int option" where
  "parse_folder_name folder_name =
     (case re_match decimal_pattern folder_name of
        Some [g1, g2, g3, g4, g5] \<Rightarrow>
          (Some (float_of_groups g3 g4), Some (int (nat_of_digits g5)))
      | _ \<Rightarrow>
          (case re_match integer_pattern folder_name of
             Some [g1, g2, g3, g4] \<Rightarrow>
               (Some (of_nat (nat_of_digits g3)), Some (int (nat_of_digits g4)))
           | _ \<Rightarrow> (None, None)))"

text \<open>A cell that is not a string has no \<open>rsplit\<close>: the \<open>AttributeError\<close> is caught
  like the \<open>ValueError\<close> of \<open>int()\<close>, and the result is all absent (\<open>None\<close>).\<close>

definition parse_spectrum_column :: "pyval \<Rightarrow> (string \<times> int \<times> int) option" where
  "parse_spectrum_column spectrum_str =
     (case spectrum_str of
        PStr s \<Rightarrow>
          (case rsplit (CHR ''.'') 3 s of
             p0 # p1 # p2 # p3 # rest \<Rightarrow>
               (case py_int p1 of
                  None \<Rightarrow> None
                | Some scan_number \<Rightarrow>
                    (case py_int p3 of
                       None \<Rightarrow> None
                     | Some charge \<Rightarrow> Some (p0, scan_number, charge)))
           | _ \<Rightarrow> None)
      | _ \<Rightarrow> None)"

definition create_spectrum_key :: "string \<Rightarrow> int \<Rightarrow> string" where
  "create_spectrum_key mzml_name scan_number = mzml_name @ ''::'' @ str_int scan_number"



subsection \<open>Data frames\<close>

text \<open>A data frame is its column index and its rows; a row gives every column name a
  cell, the missing value where it has none. Assigning to a column that exists
  overwrites it, a new column goes to the end of the index.\<close>

type_synonym row = "string \<Rightarrow> pyval"

record frame =
  columns :: "string list"
  rows :: "row list"

definition notna :: "pyval \<Rightarrow> bool" where
  "notna v = (v \<noteq> PNone)"

definition add_column :: "string \<Rightarrow> string list \<Rightarrow> string list" where
  "add_column c cols = (if c \<in> set cols then cols else cols @ [c])"

text \<open>\<open>df[c] = vals\<close> with one value for each row, in row order.\<close>

definition set_column :: "string \<Rightarrow> pyval list \<Rightarrow> frame \<Rightarrow> frame" where
  "set_column c vals df =
     \<lparr>columns = add_column c (columns df),
      rows = map (\<lambda>(r, v). r(c := v)) (zip (rows df) vals)\<rparr>"

text \<open>\<open>df[c] = f\<close> computed row by row: a scalar given to every row, \<open>df.apply\<close>
  along the rows, or \<open>Series.map\<close> of another column.\<close>

definition with_column :: "string \<Rightarrow> (row \<Rightarrow> pyval) \<Rightarrow> frame \<Rightarrow> frame" where
  "with_column c f df = set_column c (map f (rows df)) df"

definition column :: "string \<Rightarrow> frame \<Rightarrow> pyval list" where
  "column c df = map (\<lambda>r. r c) (rows df)"

datatype py_error = KeyError | ValueError | ZeroDivisionError | TypeError | AttributeError

text \<open>Assigning the result of a library call: pandas refuses values that do not fit
  the rows.\<close>

definition assign_result :: "string \<Rightarrow> pyval list \<Rightarrow> frame \<Rightarrow> py_error + frame" where
  "assign_result c vals df =
     (if length vals = length (rows df) then Inr (set_column c vals df) else Inl ValueError)"

text \<open>The columns of the result of \<open>pd.concat\<close> are those of all frames, in the order
  of their first appearance; a row is missing in the columns its own frame lacks.
  \<open>pd.concat\<close> of no frame at all raises \<open>ValueError\<close>.\<close>

definition first_occurrences :: "string list \<Rightarrow> string list" where
  "first_occurrences cs = rev (remdups (rev cs))"

definition own_cells :: "frame \<Rightarrow> row list" where
  "own_cells df = map (\<lambda>r c. if c \<in> set (columns df) then r c else PNone) (rows df)"

definition concat_frames :: "frame list \<Rightarrow> py_error + frame" where
  "concat_frames dfs =
     (if dfs = [] then Inl ValueError
      else Inr \<lparr>columns = first_occurrences (concat (map columns dfs)),
                rows = concat (map own_cells dfs)\<rparr>)"

subsection \<open>Paths and the world outside the program\<close>

text \<open>A path is its anchor (the root, empty for a relative path) and its components.
  \<open>parts\<close> lists the anchor, when there is one, and the components; the name is the last
  component, empty when there is none.\<close>

record path =
  anchor :: string
  comps :: "string list"

definition path_parts :: "path \<Rightarrow> string list" where
  "path_parts p = (if anchor p = [] then comps p else anchor p # comps p)"

definition path_name :: "path \<Rightarrow> string" where
  "path_name p = (if comps p = [] then [] else last (comps p))"

definition path_parent :: "path \<Rightarrow> path" where
  "path_parent p = p\<lparr>comps := butlast (comps p)\<rparr>"

definition joinpath :: "path \<Rightarrow> string list \<Rightarrow> path" where
  "joinpath p names = p\<lparr>comps := comps p @ names\<rparr>"

text \<open>What the program takes from the file system and from pandas. \<open>read_csv\<close> is
  \<open>None\<close> when \<open>pd.read_csv\<close> raises. \<open>pd_cut\<close> is \<open>pd.cut\<close> with the bins and labels
  of \<open>add_derived_columns\<close>, \<open>str_len\<close> the chain \<open>.str.replace(...).str.len()\<close> on the
  peptide column; each gets a whole column and returns a column or raises.\<close>

record env =
  project_dir :: path
  to_path :: "string \<Rightarrow> path"
  path_exists :: "path \<Rightarrow> bool"
  rglob_psm :: "path \<Rightarrow> path list"
  read_csv :: "path \<Rightarrow> frame option"
  pd_cut :: "pyval list \<Rightarrow> py_error + pyval list"
  str_len :: "pyval list \<Rightarrow> py_error + pyval list"

subsection \<open>File loader\<close>

definition optval :: "('a \<Rightarrow> pyval) \<Rightarrow> 'a option \<Rightarrow> pyval" where
  "optval f x = (case x of None \<Rightarrow> PNone | Some v \<Rightarrow> f v)"

text \<open>The function applied along the rows for \<open>spectrum_key\<close>. The two columns it reads
  have just been filled from \<open>parse_spectrum_column\<close>: they hold a string and an integer,
  or are both missing. The scan number is given to \<open>create_spectrum_key\<close> as the integer
  of its signature; how pandas stores a column of integers with missing entries, and so
  the exact text of the number in such a file, is below this model.\<close>

definition key_of_row :: "row \<Rightarrow> pyval" where
  "key_of_row r =
     (if notna (r ''mzml_name'') \<and> notna (r ''scan_number'')
      then (case (r ''mzml_name'', r ''scan_number'') of
              (PStr mzml_name, PInt scan_number) \<Rightarrow>
                PStr (create_spectrum_key mzml_name scan_number)
            | _ \<Rightarrow> PNone)
      else PNone)"

text \<open>\<open>None\<close> is returned for the library folder, for an empty table and for any
  exception inside the \<open>try\<close>: \<open>read_csv\<close> failing, or the \<open>KeyError\<close> of a table without
  a \<open>Spectrum\<close> column.\<close>

definition load_single_psm_file :: "env \<Rightarrow> path \<Rightarrow> frame option" where
  "load_single_psm_file env psm_file =
     (let folder_name = path_name (path_parent psm_file) in
      if folder_name = ''lib'' then None
      else
        (case read_csv env psm_file of
           None \<Rightarrow> None
         | Some df0 \<Rightarrow>
             if rows df0 = [] then None
             else
               (let (window_mz, replicate) = parse_folder_name folder_name;
                    df1 = with_column ''source_folder'' (\<lambda>r. PStr folder_name) df0;
                    df2 = with_column ''window_mz'' (\<lambda>r. optval PNum window_mz) df1;
                    df3 = with_column ''replicate'' (\<lambda>r. optval PInt replicate) df2
                in if ''Spectrum'' \<notin> set (columns df3) then None
                   else
                     (let spectrum_parsed = map parse_spectrum_column (column ''Spectrum'' df3);
                          df4 = set_column ''mzml_name''
                                  (map (optval (\<lambda>(n, s, c). PStr n)) spectrum_parsed) df3;
                          df5 = set_column ''scan_number''
                                  (map (optval (\<lambda>(n, s, c). PInt s)) spectrum_parsed) df4;
                          df6 = set_column ''charge_from_spectrum''
                                  (map (optval (\<lambda>(n, s, c). PInt c)) spectrum_parsed) df5
                      in Some (with_column ''spectrum_key'' key_of_row df6)))))"

text \<open>The columns the loader assigns.\<close>

definition loader_columns :: "string list" where
  "loader_columns =
     [''source_folder'', ''window_mz'', ''replicate'', ''mzml_name'', ''scan_number'',
      ''charge_from_spectrum'', ''spectrum_key'']"

subsection \<open>Derived columns\<close>

text \<open>\<open>df.groupby(c).size()\<close>: the number of rows for each value of the column that is
  not missing; missing keys form no group.\<close>

definition groupby_size :: "string \<Rightarrow> frame \<Rightarrow> pyval \<Rightarrow> nat option" where
  "groupby_size c df k =
     (if notna k \<and> k \<in> set (column c df) then Some (count_list (column c df) k) else None)"

text \<open>\<open>Series.map\<close> with such counts: a value without a group maps to the missing
  value.\<close>

definition map_counts :: "(pyval \<Rightarrow> nat option) \<Rightarrow> pyval \<Rightarrow> pyval" where
  "map_counts counts k = (case counts k of None \<Rightarrow> PNone | Some n \<Rightarrow> PInt (int n))"

text \<open>\<open>n_psm >= 2\<close> on one cell: a comparison with the missing value is false.\<close>

definition at_least_two :: "pyval \<Rightarrow> bool" where
  "at_least_two v = (case v of PInt n \<Rightarrow> 2 \<le> n | PNum q \<Rightarrow> 2 \<le> q | _ \<Rightarrow> False)"

definition add_derived_columns :: "env \<Rightarrow> frame \<Rightarrow> py_error + frame" where
  "add_derived_columns env df =
     (if ''window_mz'' \<notin> set (columns df) then Inl KeyError
      else
        (case pd_cut env (column ''window_mz'' df) of
           Inl e \<Rightarrow> Inl e
         | Inr bands \<Rightarrow>
             (case assign_result ''window_category'' bands df of
                Inl e \<Rightarrow> Inl e
              | Inr df1 \<Rightarrow>
                  if ''spectrum_key'' \<notin> set (columns df1) then Inl KeyError
                  else
                    (let psm_counts = groupby_size ''spectrum_key'' df1;
                         df2 = with_column ''n_psm''
                                 (\<lambda>r. map_counts psm_counts (r ''spectrum_key'')) df1;
                         df3 = with_column ''is_chimeric''
                                 (\<lambda>r. PBool (at_least_two (r ''n_psm''))) df2
                     in if ''Peptide'' \<in> set (columns df3)
                        then (case str_len env (column ''Peptide'' df3) of
                                Inl e \<Rightarrow> Inl e
                              | Inr lens \<Rightarrow> assign_result ''peptide_length'' lens df3)
                        else Inr df3))))"

subsection \<open>Validation summary and outputs\<close>

text \<open>\<open>df[df[c]]\<close>: the rows whose cell in the boolean column is true.\<close>

definition select_true :: "string \<Rightarrow> frame \<Rightarrow> frame" where
  "select_true c df = df\<lparr>rows := filter (\<lambda>r. r c = PBool True) (rows df)\<rparr>"

definition nunique :: "string \<Rightarrow> frame \<Rightarrow> nat" where
  "nunique c df = length (remdups (filter notna (column c df)))"

record summary =
  n_psm :: nat
  n_spectra :: nat
  n_files :: nat
  n_chimeric_spectra :: nat
  avg_psm_per_spectrum :: rat
  window_sizes :: "pyval list"
  summary_columns :: "string list"

text \<open>Of \<open>print_validation_stats\<close> the returned dictionary is kept and the printing left
  out, but for the division of the record count by the count of spectra, which raises
  when no row has a key. The window sizes are the distinct values present, which the
  source sorts.\<close>

definition print_validation_stats :: "frame \<Rightarrow> py_error + summary" where
  "print_validation_stats df =
     (let n = length (rows df);
          spectra = nunique ''spectrum_key'' df;
          files = nunique ''mzml_name'' df;
          chimeric = nunique ''spectrum_key'' (select_true ''is_chimeric'' df)
      in if spectra = 0 then Inl ZeroDivisionError
         else Inr \<lparr>n_psm = n, n_spectra = spectra, n_files = files,
                   n_chimeric_spectra = chimeric,
                   avg_psm_per_spectrum = of_nat n / of_nat spectra,
                   window_sizes = remdups (filter notna (column ''window_mz'' df)),
                   summary_columns = columns df\<rparr>)"

text \<open>\<open>groupby('spectrum_key')['mzml_name'].first().to_dict()\<close>: for each key its first
  run name that is not missing.\<close>

definition spectrum_to_file :: "frame \<Rightarrow> pyval \<Rightarrow> pyval option" where
  "spectrum_to_file df k =
     (if notna k \<and> k \<in> set (column ''spectrum_key'' df)
      then Some (case filter notna
                        (column ''mzml_name''
                           (df\<lparr>rows := filter (\<lambda>r. r ''spectrum_key'' = k) (rows df)\<rparr>)) of
                   [] \<Rightarrow> PNone
                 | v # vs \<Rightarrow> v)
      else None)"

datatype artifact = Table frame | Lookup "pyval \<Rightarrow> pyval option" | Stats summary

definition save_outputs :: "frame \<Rightarrow> summary \<Rightarrow> (string \<times> artifact) list" where
  "save_outputs df s =
     [(''psm_clean.csv'', Table df),
      (''psm_chimeric.csv'', Table (select_true ''is_chimeric'' df)),
      (''spectrum_to_file.pkl'', Lookup (spectrum_to_file df)),
      (''psm_stats.pkl'', Stats s)]"

subsection \<open>Locating the input and the main program\<close>

definition find_psm_directory :: "env \<Rightarrow> path option" where
  "find_psm_directory env =
     (let search_paths =
            [joinpath (project_dir env) [''raw_data'', ''PXD037527'', ''1.6-48mz_30m'', ''fragpipe''],
             joinpath (project_dir env) [''raw_data'', ''PXD037527'', ''1.6-48mz_30m''],
             joinpath (project_dir env) [''raw_data'', ''1.6-48mz_30m'', ''fragpipe''],
             joinpath (project_dir env) [''raw_data'', ''fragpipe'']]
      in List.find (\<lambda>p. path_exists env p \<and> rglob_psm env p \<noteq> []) search_paths)"

text \<open>The files \<open>main\<close> hands to the loader: those found under the input directory
  that have no part named \<open>lib\<close>.\<close>

definition find_psm_files :: "env \<Rightarrow> path \<Rightarrow> path list" where
  "find_psm_files env d = filter (\<lambda>f. ''lib'' \<notin> set (path_parts f)) (rglob_psm env d)"

text \<open>Loading and concatenating: \<open>pool.map\<close> returns the results in the order of the
  files, the \<open>None\<close> results are dropped, the rest is concatenated.\<close>

definition dataframes :: "env \<Rightarrow> path list \<Rightarrow> frame list" where
  "dataframes env psm_files =
     (let results = map (load_single_psm_file env) psm_files
      in List.map_filter (\<lambda>r. r) results)"

definition load_all :: "env \<Rightarrow> path list \<Rightarrow> py_error + frame" where
  "load_all env psm_files = concat_frames (dataframes env psm_files)"

record args =
  cores :: int
  psm_dir :: "string option"
  mzml_dir :: "string option"
  dry_run :: bool

text \<open>How a run of \<open>main\<close> ends, what it reports as error, which files it hands to the
  loader and which outputs it writes. An uncaught exception ends the run as \<open>Raised\<close>.
  The two lines of the error report are given without the symbol and the line break
  that open the first.\<close>

datatype ending = Returned | SysExit int | Raised py_error

record run =
  ending :: ending
  error_report :: "string list"
  loaded :: "path list"
  written :: "(string \<times> artifact) list"

definition config_error :: run where
  "config_error =
     \<lparr>ending = SysExit 1,
      error_report = [''ERROR: Cannot find PSM directory!'',
                      ''   Specify with: --psm-dir /path/to/fragpipe/''],
      loaded = [], written = []\<rparr>"

definition stopped :: "ending \<Rightarrow> path list \<Rightarrow> run" where
  "stopped e files = \<lparr>ending = e, error_report = [], loaded = files, written = []\<rparr>"

definition main :: "env \<Rightarrow> args \<Rightarrow> run" where
  "main env a =
     (let given = (case psm_dir a of
                     None \<Rightarrow> None
                   | Some s \<Rightarrow> if s = [] then None else Some (to_path env s));
          located = (case given of None \<Rightarrow> find_psm_directory env | Some d \<Rightarrow> Some d)
      in case located of
           None \<Rightarrow> config_error
         | Some d \<Rightarrow>
             if \<not> path_exists env d then config_error
             else
               (let psm_files = find_psm_files env d in
                if dry_run a then stopped Returned []
                else if cores a < 1 then stopped (Raised ValueError) []
                else
                  (case load_all env psm_files of
                     Inl e \<Rightarrow> stopped (Raised e) psm_files
                   | Inr df_all \<Rightarrow>
                       (case add_derived_columns env df_all of
                          Inl e \<Rightarrow> stopped (Raised e) psm_files
                        | Inr df \<Rightarrow>
                            (case print_validation_stats df of
                               Inl e \<Rightarrow> stopped (Raised e) psm_files
                             | Inr s \<Rightarrow>
                                 \<lparr>ending = Returned, error_report = [],
                                  loaded = psm_files, written = save_outputs df s\<rparr>)))))"

subsection \<open>The row-wise reading of the loader and of the aggregator\<close>

text \<open>What the loader makes of one row of a file in the folder \<open>folder_name\<close>, and the
  two chimericity cells of a row as the counts of the table \<open>df\<close> determine them. Both are
  shown below to describe the functions above.\<close>

definition load_row :: "string \<Rightarrow> row \<Rightarrow> row" where
  "load_row folder_name r =
     (let p = parse_spectrum_column (r ''Spectrum'');
          r6 = r(''source_folder'' := PStr folder_name,
                 ''window_mz'' := optval PNum (fst (parse_folder_name folder_name)),
                 ''replicate'' := optval PInt (snd (parse_folder_name folder_name)),
                 ''mzml_name'' := optval (\<lambda>(n, s, c). PStr n) p,
                 ''scan_number'' := optval (\<lambda>(n, s, c). PInt s) p,
                 ''charge_from_spectrum'' := optval (\<lambda>(n, s, c). PInt c) p)
      in r6(''spectrum_key'' := key_of_row r6))"

definition chimeric_cells :: "frame \<Rightarrow> row \<Rightarrow> bool" where
  "chimeric_cells df r =
     (r ''n_psm'' = map_counts (groupby_size ''spectrum_key'' df) (r ''spectrum_key'') \<and>
      r ''is_chimeric'' = PBool (at_least_two (r ''n_psm'')))"

subsection \<open>A small world for the examples\<close>

text \<open>One identification table with three records of scan 988 of run \<open>RunA\<close>, one of
  scan 1200 and one whose identifier cannot be parsed; the same table is served for two
  run folders and for the library folder. \<open>pd.cut\<close> sorts a float into the bands
  \<open>(0, 4]\<close>, \<open>(4, 12]\<close> and \<open>(12, 100]\<close>; the peptides carry no bracketed annotation, so
  that their length is the length of the text.\<close>

definition window_band :: "pyval \<Rightarrow> pyval" where
  "window_band v =
     (case v of
        PNum w \<Rightarrow>
          if 0 < w \<and> w \<le> 4 then PStr ''narrow''
          else if 4 < w \<and> w \<le> 12 then PStr ''medium''
          else if 12 < w \<and> w \<le> 100 then PStr ''wide''
          else PNone
      | _ \<Rightarrow> PNone)"

definition plain_length :: "pyval \<Rightarrow> pyval" where
  "plain_length v = (case v of PStr s \<Rightarrow> PInt (int (length s)) | _ \<Rightarrow> PNone)"

definition example_row :: "string \<Rightarrow> string \<Rightarrow> row" where
  "example_row spectrum peptide =
     (\<lambda>c. PNone)(''Spectrum'' := PStr spectrum, ''Peptide'' := PStr peptide)"

definition example_table :: frame where
  "example_table =
     \<lparr>columns = [''Spectrum'', ''Peptide''],
      rows = [example_row ''RunA.00988.00988.2'' ''PEPTIDEK'',
              example_row ''RunA.00988.00988.3'' ''ELVISK'',
              example_row ''RunA.00988.00988.2'' ''LIVESK'',
              example_row ''RunA.01200.01200.2'' ''AAAK'',
              example_row ''bad_identifier'' ''CCCK'']\<rparr>"

definition data_dir :: path where
  "data_dir = \<lparr>anchor = ''/'', comps = [''data'', ''fragpipe'']\<rparr>"

definition run_file :: path where
  "run_file = joinpath data_dir [''86_45_24mz_2'', ''psm.tsv'']"

definition lib_file :: path where
  "lib_file = joinpath data_dir [''lib'', ''psm.tsv'']"

definition other_run_file :: path where
  "other_run_file = joinpath data_dir [''118_60_1_6mz_1'', ''psm.tsv'']"

definition example_env :: env where
  "example_env =
     \<lparr>project_dir = \<lparr>anchor = ''/'', comps = [''project'']\<rparr>,
      to_path = (\<lambda>s. \<lparr>anchor = [], comps = [s]\<rparr>),
      path_exists = (\<lambda>p. p = data_dir),
      rglob_psm = (\<lambda>p. if p = data_dir then [lib_file, run_file, other_run_file] else []),
      read_csv = (\<lambda>f. if f \<in> {lib_file, run_file, other_run_file}
                       then Some example_table else None),
      pd_cut = (\<lambda>vs. Inr (map window_band vs)),
      str_len = (\<lambda>vs. Inr (map plain_length vs))\<rparr>"

definition key_row :: "pyval \<Rightarrow> row" where
  "key_row k = (\<lambda>c. PNone)(''window_mz'' := PNum 24, ''spectrum_key'' := k)"

definition three_and_one :: frame where
  "three_and_one =
     \<lparr>columns = [''window_mz'', ''spectrum_key''],
      rows = map key_row
               [PStr ''RunA::988'', PStr ''RunA::988'', PStr ''RunA::988'', PStr ''RunB::988'']\<rparr>"

definition one_without_key :: frame where
  "one_without_key =
     \<lparr>columns = [''window_mz'', ''spectrum_key''],
      rows = map key_row [PStr ''RunA::988'', PNone]\<rparr>"

definition example_args :: args where
  "example_args = \<lparr>cores = 64, psm_dir = None, mzml_dir = None, dry_run = False\<rparr>"

section \<open>Properties\<close>

subsection \<open>Decimal text of integers\<close>











lemma takeWhile_before_sep:
  "c \<notin> set ys \<Longrightarrow> takeWhile (\<lambda>x. x \<noteq> c) (ys @ c # xs) = ys"
  by (induction ys) auto



subsection \<open>Splitting at the last separators\<close>

lemma dropWhile_before_sep:
  "c \<notin> set ys \<Longrightarrow> dropWhile (\<lambda>x. x \<noteq> c) (ys @ c # xs) = c # xs"
  by (induction ys) auto

lemma split_left_at_sep:
  "c \<notin> set x \<Longrightarrow> split_left c (Suc n) (x @ c # rest) = x # split_left c n rest"
  by (simp add: takeWhile_before_sep dropWhile_before_sep)

lemma rsplit_four:
  assumes "CHR ''.'' \<notin> set a" and "CHR ''.'' \<notin> set b" and "CHR ''.'' \<notin> set c"
  shows "rsplit (CHR ''.'') 3 (run @ ''.'' @ a @ ''.'' @ b @ ''.'' @ c) = [run, a, b, c]"
proof -
  have r: "rev (run @ ''.'' @ a @ ''.'' @ b @ ''.'' @ c)
             = rev c @ CHR ''.'' # (rev b @ CHR ''.'' # (rev a @ CHR ''.'' # rev run))"
    by simp
  have "split_left (CHR ''.'') (Suc (Suc (Suc 0))) (rev c @ CHR ''.'' # (rev b @ CHR ''.'' # (rev a @ CHR ''.'' # rev run)))
          = [rev c, rev b, rev a, rev run]"
    using assms by (simp add: split_left_at_sep del: split_left.simps(2))
  then show ?thesis
    unfolding rsplit_def r by (simp add: numeral_3_eq_3)
qed

lemma count_list_sep:
  "c \<in> set s \<Longrightarrow> count_list s c = Suc (count_list (tl (dropWhile (\<lambda>x. x \<noteq> c) s)) c)"
  by (induction s) auto

lemma length_split_left_count: "length (split_left c n s) \<le> Suc (count_list s c)"
proof (induction n arbitrary: s)
  case 0
  show ?case by simp
next
  case (Suc n)
  show ?case
  proof (cases "c \<in> set s")
    case True
    then show ?thesis
      using Suc [of "tl (dropWhile (\<lambda>x. x \<noteq> c) s)"] count_list_sep [of c s] by simp
  next
    case False
    then show ?thesis by simp
  qed
qed

lemma length_split_left_max: "length (split_left c n s) \<le> Suc n"
  by (induction n arbitrary: s) auto

lemma length_rsplit_max: "length (rsplit c n s) \<le> Suc n"
  by (simp add: rsplit_def length_split_left_max)

lemma count_list_rev: "count_list (rev s) c = count_list s c"
  by (induction s) auto

lemma length_rsplit_count: "length (rsplit c n s) \<le> Suc (count_list s c)"
  using length_split_left_count [of c n "rev s"] by (simp add: rsplit_def count_list_rev)

lemma parse_few_segments:
  assumes "count_list s (CHR ''.'') < 3"
  shows "parse_spectrum_column (PStr s) = None"
proof -
  have "length (rsplit (CHR ''.'') 3 s) < 4"
    using length_rsplit_count [of "CHR ''.''" 3 s] assms by simp
  then show ?thesis
    by (auto simp add: parse_spectrum_column_def split: list.splits)
qed

lemma parse_four_segments:
  assumes "CHR ''.'' \<notin> set a" and "CHR ''.'' \<notin> set b" and "CHR ''.'' \<notin> set c"
  shows "parse_spectrum_column (PStr (run @ ''.'' @ a @ ''.'' @ b @ ''.'' @ c)) =
           (case py_int a of
              None \<Rightarrow> None
            | Some scan \<Rightarrow> (case py_int c of None \<Rightarrow> None | Some charge \<Rightarrow> Some (run, scan, charge)))"
  unfolding parse_spectrum_column_def pyval.case rsplit_four [OF assms] by simp

lemma count_list_after_last:
  "c \<notin> set zs \<Longrightarrow> count_list (ys @ c # zs) c = Suc (count_list ys c)"
  by (induction ys) (auto simp add: count_list_0_iff)

lemma cut_at_last_sep:
  assumes "0 < count_list s c"
  shows "\<exists>ys zs. s = ys @ c # zs \<and> c \<notin> set zs \<and> count_list s c = Suc (count_list ys c)"
proof -
  have "c \<in> set s"
  proof (rule ccontr)
    assume "c \<notin> set s"
    then have "count_list s c = 0" by (simp add: count_list_0_iff)
    with assms show False by simp
  qed
  then obtain ys zs where "s = ys @ c # zs" and "c \<notin> set zs"
    using split_list_last [of c s] by blast
  then show ?thesis using count_list_after_last [of c zs ys] by blast
qed

lemma four_segments_shape:
  assumes "3 \<le> count_list s (CHR ''.'')"
  shows "\<exists>run a b c. s = run @ ''.'' @ a @ ''.'' @ b @ ''.'' @ c \<and>
           CHR ''.'' \<notin> set a \<and> CHR ''.'' \<notin> set b \<and> CHR ''.'' \<notin> set c"
proof -
  from assms obtain s2 c where 1: "s = s2 @ CHR ''.'' # c" "CHR ''.'' \<notin> set c"
    "count_list s (CHR ''.'') = Suc (count_list s2 (CHR ''.''))"
    using cut_at_last_sep [of s "CHR ''.''"] by auto
  with assms have "0 < count_list s2 (CHR ''.'')" by simp
  then obtain s1 b where 2: "s2 = s1 @ CHR ''.'' # b" "CHR ''.'' \<notin> set b"
    "count_list s2 (CHR ''.'') = Suc (count_list s1 (CHR ''.''))"
    using cut_at_last_sep [of s2 "CHR ''.''"] by auto
  with 1 assms have "0 < count_list s1 (CHR ''.'')" by simp
  then obtain run a where 3: "s1 = run @ CHR ''.'' # a" "CHR ''.'' \<notin> set a"
    using cut_at_last_sep [of s1 "CHR ''.''"] by auto
  have "s = run @ ''.'' @ a @ ''.'' @ b @ ''.'' @ c"
    using 1(1) 2(1) 3(1) by simp
  with 1(2) 2(2) 3(2) show ?thesis by blast
qed


subsection \<open>Spectrum keys\<close>






subsection \<open>Spectrum identifiers\<close>

text \<open>
  C3. \<open>parse_spectrum_column\<close> splits from the right into at most four segments. An
  identifier with fewer than four dot-separated segments (fewer than three dots), such as
  \<open>bad_identifier\<close>, gives all fields absent, and so does a cell that is not a string;
  nothing is raised. An identifier with at least three dots is a run name followed by
  three dot-free segments; the run name is everything left of them and may hold dots, the
  first of the three is read as the scan number and the last as the charge, and when
  either is not an integer all fields are absent. \<open>RunA.00988.00988.2\<close> parses to
  \<open>RunA\<close>, 988 and 2.
\<close>

theorem parse_spectrum_column_contract:
  "parse_spectrum_column (PStr ''RunA.00988.00988.2'') = Some (''RunA'', 988, 2) \<and>
   parse_spectrum_column (PStr ''bad_identifier'') = None \<and>
   length (rsplit (CHR ''.'') 3 s) \<le> 4 \<and>
   (count_list s (CHR ''.'') < 3 \<longrightarrow> parse_spectrum_column (PStr s) = None) \<and>
   (3 \<le> count_list s (CHR ''.'') \<longrightarrow>
      (\<exists>run a b c. s = run @ ''.'' @ a @ ''.'' @ b @ ''.'' @ c \<and>
         CHR ''.'' \<notin> set a \<and> CHR ''.'' \<notin> set b \<and> CHR ''.'' \<notin> set c)) \<and>
   (CHR ''.'' \<notin> set a \<and> CHR ''.'' \<notin> set b \<and> CHR ''.'' \<notin> set c \<longrightarrow>
      rsplit (CHR ''.'') 3 (run @ ''.'' @ a @ ''.'' @ b @ ''.'' @ c) = [run, a, b, c] \<and>
      parse_spectrum_column (PStr (run @ ''.'' @ a @ ''.'' @ b @ ''.'' @ c)) =
        (case py_int a of
           None \<Rightarrow> None
         | Some scan \<Rightarrow>
             (case py_int c of None \<Rightarrow> None | Some charge \<Rightarrow> Some (run, scan, charge)))) \<and>
   ((\<forall>t. v \<noteq> PStr t) \<longrightarrow> parse_spectrum_column v = None)"
proof -
  have e1: "parse_spectrum_column (PStr ''RunA.00988.00988.2'') = Some (''RunA'', 988, 2)"
    by code_simp
  have e2: "parse_spectrum_column (PStr ''bad_identifier'') = None"
    by code_simp
  have l: "length (rsplit (CHR ''.'') 3 s) \<le> 4"
    using length_rsplit_max [of "CHR ''.''" 3 s] by simp
  have n: "(\<forall>t. v \<noteq> PStr t) \<longrightarrow> parse_spectrum_column v = None"
    by (cases v) (simp_all add: parse_spectrum_column_def)
  show ?thesis
    using e1 e2 l n parse_few_segments [of s] four_segments_shape [of s]
      rsplit_four [of a b c run] parse_four_segments [of a b c run]
    by blast
qed

theorem parse_spectrum_column_contract_witness:
  "parse_spectrum_column (PStr ''Ex.Au_4mz_2.00988.00988.2'') = Some (''Ex.Au_4mz_2'', 988, 2) \<and>
   parse_spectrum_column (PStr ''a.b.c'') = None \<and>
   parse_spectrum_column (PInt 5) = None"
proof -
  have d: "CHR ''.'' \<notin> set ''00988'' \<and> CHR ''.'' \<notin> set ''00988'' \<and> CHR ''.'' \<notin> set ''2''"
    by simp
  have c: "count_list ''a.b.c'' (CHR ''.'') < 3" by simp
  have i1: "py_int ''00988'' = Some 988" by code_simp
  have i2: "py_int ''2'' = Some 2" by code_simp
  have v: "\<forall>t. PInt 5 \<noteq> PStr t" by simp
  show ?thesis
    using parse_spectrum_column_contract
      [of "''a.b.c''" "''00988''" "''00988''" "''2''" "''Ex.Au_4mz_2''" "PInt 5"] d c i1 i2 v
    by simp
qed

subsection \<open>Folder names\<close>

text \<open>
  C4, as stated: the folder name \<open>118_60_1_6_1mz\<close> is to parse to the window 1.6. It
  matches neither pattern, since both want \<open>mz_\<close> and the replicate after the window
  digits, and both fields come out absent.
\<close>

theorem parse_folder_name_counterexample:
  "parse_folder_name ''118_60_1_6_1mz'' = (None, None) \<and>
   fst (parse_folder_name ''118_60_1_6_1mz'') \<noteq> Some (16 / 10)"
  by code_simp

text \<open>
  C4, amended. The decimal-style name \<open>118_60_1_6mz_1\<close> parses to window 1.6 and
  replicate 1, the integer-style name \<open>86_45_24mz_2\<close> to window 24.0 and replicate 2.
  The decimal pattern is tried first and decides alone when it matches; the integer
  pattern is tried only after it failed; with neither, both fields are absent. The size
  of the window plays no part: \<open>1_1_300_5mz_7\<close> is the decimal 300.5 and \<open>1_1_2mz_7\<close>
  the integer 2.
\<close>

theorem parse_folder_name_patterns:
  "parse_folder_name ''118_60_1_6mz_1'' = (Some (16 / 10), Some 1) \<and>
   parse_folder_name ''86_45_24mz_2'' = (Some 24, Some 2) \<and>
   parse_folder_name ''1_1_300_5mz_7'' = (Some (3005 / 10), Some 7) \<and>
   parse_folder_name ''1_1_2mz_7'' = (Some 2, Some 7) \<and>
   (re_match decimal_pattern s = Some [g1, g2, g3, g4, g5] \<longrightarrow>
      parse_folder_name s = (Some (float_of_groups g3 g4), Some (int (nat_of_digits g5)))) \<and>
   (re_match decimal_pattern s = None \<and> re_match integer_pattern s = Some [h1, h2, h3, h4] \<longrightarrow>
      parse_folder_name s = (Some (of_nat (nat_of_digits h3)), Some (int (nat_of_digits h4)))) \<and>
   (re_match decimal_pattern s = None \<and> re_match integer_pattern s = None \<longrightarrow>
      parse_folder_name s = (None, None))"
proof -
  have e1: "parse_folder_name ''118_60_1_6mz_1'' = (Some (16 / 10), Some 1)" by code_simp
  have e2: "parse_folder_name ''86_45_24mz_2'' = (Some 24, Some 2)" by code_simp
  have e3: "parse_folder_name ''1_1_300_5mz_7'' = (Some (3005 / 10), Some 7)" by code_simp
  have e4: "parse_folder_name ''1_1_2mz_7'' = (Some 2, Some 7)" by code_simp
  show ?thesis
    using e1 e2 e3 e4 by (simp add: parse_folder_name_def)
qed

theorem parse_folder_name_patterns_witness:
  "re_match decimal_pattern ''118_60_1_6mz_1'' = Some [''118'', ''60'', ''1'', ''6'', ''1''] \<and>
   parse_folder_name ''118_60_1_6mz_1'' = (Some (float_of_groups ''1'' ''6''), Some (int (nat_of_digits ''1'')))"
proof -
  have m: "re_match decimal_pattern ''118_60_1_6mz_1'' = Some [''118'', ''60'', ''1'', ''6'', ''1'']"
    by code_simp
  show ?thesis
    using parse_folder_name_patterns [of "''118_60_1_6mz_1''" "''118''" "''60''" "''1''" "''6''" "''1''"] m
    by blast
qed

subsection \<open>Columns of a frame\<close>

lemma zip_map_same: "zip xs (map f xs) = map (\<lambda>x. (x, f x)) xs"
  by (induction xs) simp_all

lemma rows_with_column: "rows (with_column c f df) = map (\<lambda>r. r(c := f r)) (rows df)"
  by (simp add: with_column_def set_column_def zip_map_same)

lemma columns_with_column: "columns (with_column c f df) = add_column c (columns df)"
  by (simp add: with_column_def set_column_def)

lemma columns_set_column: "columns (set_column c vals df) = add_column c (columns df)"
  by (simp add: set_column_def)

lemma set_add_column: "set (add_column c cs) = insert c (set cs)"
  by (auto simp add: add_column_def)

lemma map_upd_zip_other:
  "s \<noteq> c \<Longrightarrow> length vals = length rs \<Longrightarrow>
     map (\<lambda>r. r s) (map (\<lambda>(r, v). r(c := v)) (zip rs vals)) = map (\<lambda>r. r s) rs"
  by (induction rs vals rule: list_induct2') simp_all

lemma column_set_column_other:
  "s \<noteq> c \<Longrightarrow> length vals = length (rows df) \<Longrightarrow> column s (set_column c vals df) = column s df"
  by (simp add: column_def set_column_def map_upd_zip_other del: map_map)

lemma column_with_column_other: "s \<noteq> c \<Longrightarrow> column s (with_column c f df) = column s df"
  by (simp add: with_column_def column_set_column_other)

lemma rows_set_column_elem:
  assumes "r' \<in> set (rows (set_column c vals df))"
  shows "\<exists>r \<in> set (rows df). \<exists>v. r' = r(c := v)"
proof -
  from assms obtain r v where "(r, v) \<in> set (zip (rows df) vals)" and "r' = r(c := v)"
    by (auto simp add: set_column_def)
  then show ?thesis using set_zip_leftD [of r v "rows df" vals] by blast
qed

lemma groupby_size_cong:
  "column c df = column c df' \<Longrightarrow> groupby_size c df = groupby_size c df'"
  by (simp add: groupby_size_def fun_eq_iff)

lemma rows_set_column_map:
  "rows df = map g rs \<Longrightarrow> rows (set_column c (map h rs) df) = map (\<lambda>x. (g x)(c := h x)) rs"
  by (simp add: set_column_def zip_map_map zip_same_conv_map)

lemma rows_with_column_map:
  "rows df = map g rs \<Longrightarrow> rows (with_column c f df) = map (\<lambda>x. (g x)(c := f (g x))) rs"
  by (simp add: rows_with_column)

subsection \<open>The loader, row by row\<close>

lemma load_single_psm_file_rows:
  assumes "path_name (path_parent f) \<noteq> ''lib''"
    and "read_csv env f = Some df"
    and "rows df \<noteq> []"
    and "''Spectrum'' \<in> set (columns df)"
  shows "\<exists>df'. load_single_psm_file env f = Some df' \<and>
           rows df' = map (load_row (path_name (path_parent f))) (rows df) \<and>
           set (columns df') = set (columns df) \<union> set loader_columns"
proof -
  define folder where "folder = path_name (path_parent f)"
  define w where "w = optval PNum (fst (parse_folder_name folder))"
  define rep where "rep = optval PInt (snd (parse_folder_name folder))"
  define df1 where "df1 = with_column ''source_folder'' (\<lambda>r. PStr folder) df"
  define df2 where "df2 = with_column ''window_mz'' (\<lambda>r. w) df1"
  define df3 where "df3 = with_column ''replicate'' (\<lambda>r. rep) df2"
  define sp where "sp = map parse_spectrum_column (column ''Spectrum'' df3)"
  define df4 where "df4 = set_column ''mzml_name'' (map (optval (\<lambda>(n, s, c). PStr n)) sp) df3"
  define df5 where "df5 = set_column ''scan_number'' (map (optval (\<lambda>(n, s, c). PInt s)) sp) df4"
  define df6 where
    "df6 = set_column ''charge_from_spectrum'' (map (optval (\<lambda>(n, s, c). PInt c)) sp) df5"
  define df7 where "df7 = with_column ''spectrum_key'' key_of_row df6"
  define g3 where
    "g3 = (\<lambda>r :: row. r(''source_folder'' := PStr folder, ''window_mz'' := w, ''replicate'' := rep))"
  define pr where "pr = (\<lambda>r :: row. parse_spectrum_column (r ''Spectrum''))"
  define g6 where
    "g6 = (\<lambda>r :: row. (g3 r)(''mzml_name'' := optval (\<lambda>(n, s, c). PStr n) (pr r),
                               ''scan_number'' := optval (\<lambda>(n, s, c). PInt s) (pr r),
                               ''charge_from_spectrum'' := optval (\<lambda>(n, s, c). PInt c) (pr r)))"
  have c3: "set (columns df3) = set (columns df) \<union> {''source_folder'', ''window_mz'', ''replicate''}"
    by (auto simp add: df3_def df2_def df1_def columns_with_column set_add_column)
  have r3: "rows df3 = map g3 (rows df)"
    by (simp add: df3_def df2_def df1_def rows_with_column g3_def)
  have sp: "sp = map pr (rows df)"
    by (simp add: sp_def column_def r3 pr_def g3_def)
  have r4: "rows df4 = map (\<lambda>r. (g3 r)(''mzml_name'' := optval (\<lambda>(n, s, c). PStr n) (pr r))) (rows df)"
    unfolding df4_def sp map_map comp_def by (rule rows_set_column_map [OF r3])
  have r5: "rows df5 = map (\<lambda>r. (g3 r)(''mzml_name'' := optval (\<lambda>(n, s, c). PStr n) (pr r),
                                         ''scan_number'' := optval (\<lambda>(n, s, c). PInt s) (pr r))) (rows df)"
    unfolding df5_def sp map_map comp_def by (rule rows_set_column_map [OF r4])
  have r6: "rows df6 = map g6 (rows df)"
    unfolding df6_def sp map_map comp_def g6_def by (rule rows_set_column_map [OF r5])
  have r7: "rows df7 = map (\<lambda>r. (g6 r)(''spectrum_key'' := key_of_row (g6 r))) (rows df)"
    unfolding df7_def by (rule rows_with_column_map [OF r6])
  have g: "(\<lambda>r. (g6 r)(''spectrum_key'' := key_of_row (g6 r))) = load_row folder"
    by (simp add: fun_eq_iff load_row_def Let_def g6_def g3_def pr_def w_def rep_def)
  have c7: "set (columns df7) = set (columns df) \<union> set loader_columns"
    using c3
    by (auto simp add: df7_def df6_def df5_def df4_def columns_with_column columns_set_column
        set_add_column loader_columns_def)
  have "load_single_psm_file env f = Some df7"
    using assms
    unfolding load_single_psm_file_def Let_def
    by (simp add: df7_def df6_def df5_def df4_def sp_def df3_def df2_def df1_def w_def rep_def
        folder_def columns_with_column set_add_column split: prod.split)
  with r7 g c7 show ?thesis by (simp add: folder_def)
qed


lemma run_folder: "path_name (path_parent run_file) = ''86_45_24mz_2''"
  by (simp add: run_file_def joinpath_def path_parent_def path_name_def data_dir_def)


subsection \<open>Chimericity\<close>

lemma assign_result_Inr:
  "assign_result c vals df = Inr df' \<Longrightarrow> length vals = length (rows df) \<and> df' = set_column c vals df"
  by (simp add: assign_result_def split: if_splits)

lemma add_derived_columns_rows:
  assumes "add_derived_columns env df = Inr df'"
  shows "column ''spectrum_key'' df' = column ''spectrum_key'' df \<and>
         (\<forall>r \<in> set (rows df'). chimeric_cells df r)"
proof -
  from assms obtain bands df1 where b: "pd_cut env (column ''window_mz'' df) = Inr bands"
    and a1: "assign_result ''window_category'' bands df = Inr df1"
    and k: "''spectrum_key'' \<in> set (columns df1)"
    by (auto simp add: add_derived_columns_def split: if_splits sum.splits)
  define df2 where
    "df2 = with_column ''n_psm''
             (\<lambda>r. map_counts (groupby_size ''spectrum_key'' df1) (r ''spectrum_key'')) df1"
  define df3 where
    "df3 = with_column ''is_chimeric'' (\<lambda>r. PBool (at_least_two (r ''n_psm''))) df2"
  have fin: "df' = df3 \<or> (\<exists>lens. assign_result ''peptide_length'' lens df3 = Inr df')"
    using assms b a1 k
    by (auto simp add: add_derived_columns_def Let_def df3_def df2_def split: if_splits sum.splits)
  have l1: "length bands = length (rows df)" and d1: "df1 = set_column ''window_category'' bands df"
    using assign_result_Inr [OF a1] by simp_all
  have c1: "column ''spectrum_key'' df1 = column ''spectrum_key'' df"
    unfolding d1 using l1 by (simp add: column_set_column_other)
  then have g: "groupby_size ''spectrum_key'' df1 = groupby_size ''spectrum_key'' df"
    by (rule groupby_size_cong)
  have c3: "column ''spectrum_key'' df3 = column ''spectrum_key'' df"
    by (simp add: df3_def df2_def column_with_column_other c1)
  have r3: "\<forall>r \<in> set (rows df3). chimeric_cells df r"
    by (auto simp add: df3_def df2_def rows_with_column chimeric_cells_def g)
  from fin show ?thesis
  proof
    assume "df' = df3"
    with c3 r3 show ?thesis by simp
  next
    assume "\<exists>lens. assign_result ''peptide_length'' lens df3 = Inr df'"
    then obtain lens where l: "length lens = length (rows df3)"
      and d: "df' = set_column ''peptide_length'' lens df3"
      using assign_result_Inr by blast
    have "column ''spectrum_key'' df' = column ''spectrum_key'' df"
      unfolding d using l c3 by (simp add: column_set_column_other)
    moreover have "chimeric_cells df r" if "r \<in> set (rows df')" for r
    proof -
      from that obtain q v where q: "q \<in> set (rows df3)" and r: "r = q(''peptide_length'' := v)"
        unfolding d using rows_set_column_elem by blast
      from q r3 have "chimeric_cells df q" by blast
      then show ?thesis by (simp add: r chimeric_cells_def)
    qed
    ultimately show ?thesis by blast
  qed
qed

lemma count_list_map_filter: "count_list (map f xs) k = length (filter (\<lambda>x. f x = k) xs)"
  by (induction xs) simp_all

lemma length_column: "length (column c df) = length (rows df)"
  by (simp add: column_def)

lemma add_derived_columns_example:
  "columns df = [''window_mz'', ''spectrum_key''] \<Longrightarrow>
     \<exists>df'. add_derived_columns example_env df = Inr df'"
  by (simp add: add_derived_columns_def example_env_def assign_result_def column_def
      columns_with_column columns_set_column add_column_def Let_def)

text \<open>
  C2. When \<open>add_derived_columns\<close> returns a table, it has the rows of the consolidated
  table; each record with a spectrum key carries as count the number of records of the
  table with that key, and the chimeric flag is a boolean that is true exactly when the
  count is present and at least 2. With three records under one key and one under
  another, the three have count 3 and are chimeric, the one has count 1 and is not.
\<close>

theorem chimericity_aggregation:
  assumes "add_derived_columns env df = Inr df'"
  shows "length (rows df') = length (rows df) \<and>
         (\<forall>r \<in> set (rows df').
            (notna (r ''spectrum_key'') \<longrightarrow>
               r ''n_psm'' =
                 PInt (int (length (filter (\<lambda>q. q ''spectrum_key'' = r ''spectrum_key'')
                                      (rows df'))))) \<and>
            (r ''is_chimeric'' = PBool True \<or> r ''is_chimeric'' = PBool False) \<and>
            (r ''is_chimeric'' = PBool True \<longleftrightarrow> (\<exists>n. r ''n_psm'' = PInt n \<and> 2 \<le> n))) \<and>
         (a \<noteq> b \<and> column ''spectrum_key'' df = [PStr a, PStr a, PStr a, PStr b] \<longrightarrow>
            map (\<lambda>r. (r ''n_psm'', r ''is_chimeric'')) (rows df') =
              [(PInt 3, PBool True), (PInt 3, PBool True), (PInt 3, PBool True),
               (PInt 1, PBool False)])"
proof -
  have keys: "column ''spectrum_key'' df' = column ''spectrum_key'' df"
    and cells: "\<And>r. r \<in> set (rows df') \<Longrightarrow> chimeric_cells df r"
    using add_derived_columns_rows [OF assms] by simp_all
  have len: "length (rows df') = length (rows df)"
    using arg_cong [OF keys, of length] by (simp add: length_column)
  have count: "r ''n_psm'' =
      PInt (int (length (filter (\<lambda>q. q ''spectrum_key'' = r ''spectrum_key'') (rows df'))))"
    if "r \<in> set (rows df')" and "notna (r ''spectrum_key'')" for r
  proof -
    have "r ''spectrum_key'' \<in> set (column ''spectrum_key'' df)"
      using that(1) keys [symmetric] by (simp add: column_def)
    moreover have "count_list (column ''spectrum_key'' df') (r ''spectrum_key'') =
        length (filter (\<lambda>q. q ''spectrum_key'' = r ''spectrum_key'') (rows df'))"
      unfolding column_def by (rule count_list_map_filter)
    then have "count_list (column ''spectrum_key'' df) (r ''spectrum_key'') =
        length (filter (\<lambda>q. q ''spectrum_key'' = r ''spectrum_key'') (rows df'))"
      by (simp add: keys)
    ultimately show ?thesis
      using cells [OF that(1)] that(2)
      by (simp add: chimeric_cells_def groupby_size_def map_counts_def)
  qed
  have flag: "(r ''is_chimeric'' = PBool True \<or> r ''is_chimeric'' = PBool False) \<and>
      (r ''is_chimeric'' = PBool True \<longleftrightarrow> (\<exists>n. r ''n_psm'' = PInt n \<and> 2 \<le> n))"
    if "r \<in> set (rows df')" for r
  proof -
    have n: "r ''n_psm'' = PNone \<or> (\<exists>n. r ''n_psm'' = PInt n)"
      using cells [OF that] by (auto simp add: chimeric_cells_def map_counts_def split: option.splits)
    have "r ''is_chimeric'' = PBool (at_least_two (r ''n_psm''))"
      using cells [OF that] by (simp add: chimeric_cells_def)
    with n show ?thesis by (auto simp add: at_least_two_def)
  qed
  have example: "map (\<lambda>r. (r ''n_psm'', r ''is_chimeric'')) (rows df') =
      [(PInt 3, PBool True), (PInt 3, PBool True), (PInt 3, PBool True), (PInt 1, PBool False)]"
    if ab: "a \<noteq> b" and col: "column ''spectrum_key'' df = [PStr a, PStr a, PStr a, PStr b]"
  proof -
    define h where "h = (\<lambda>k. (map_counts (groupby_size ''spectrum_key'' df) k,
                              PBool (at_least_two (map_counts (groupby_size ''spectrum_key'' df) k))))"
    have "map (\<lambda>r. (r ''n_psm'', r ''is_chimeric'')) (rows df') =
        map (\<lambda>r. h (r ''spectrum_key'')) (rows df')"
      using cells by (simp add: chimeric_cells_def h_def)
    also have "\<dots> = map h (column ''spectrum_key'' df')"
      by (simp add: column_def)
    also have "\<dots> = map h [PStr a, PStr a, PStr a, PStr b]"
      by (simp add: keys col)
    also have "\<dots> = [(PInt 3, PBool True), (PInt 3, PBool True), (PInt 3, PBool True),
                       (PInt 1, PBool False)]"
      using ab by (simp add: h_def groupby_size_def col map_counts_def at_least_two_def notna_def)
    finally show ?thesis .
  qed
  show ?thesis using len count flag example by blast
qed

theorem chimericity_aggregation_witness:
  "\<exists>df'. add_derived_columns example_env three_and_one = Inr df' \<and>
     length (rows df') = 4 \<and>
     map (\<lambda>r. (r ''n_psm'', r ''is_chimeric'')) (rows df') =
       [(PInt 3, PBool True), (PInt 3, PBool True), (PInt 3, PBool True), (PInt 1, PBool False)]"
proof -
  obtain df' where d: "add_derived_columns example_env three_and_one = Inr df'"
    using add_derived_columns_example [of three_and_one] by (auto simp add: three_and_one_def)
  have c: "''RunA::988'' \<noteq> ''RunB::988'' \<and>
      column ''spectrum_key'' three_and_one =
        [PStr ''RunA::988'', PStr ''RunA::988'', PStr ''RunA::988'', PStr ''RunB::988'']"
    by (simp add: column_def three_and_one_def key_row_def)
  have l: "length (rows three_and_one) = 4"
    by (simp add: three_and_one_def)
  show ?thesis
    using chimericity_aggregation [OF d, of "''RunA::988''" "''RunB::988''"] c d l by simp
qed

lemma save_outputs_chimeric:
  "map_of (save_outputs df s) ''psm_chimeric.csv'' = Some (Table (select_true ''is_chimeric'' df))"
  by (simp add: save_outputs_def)

text \<open>
  C10. The aggregator leaves the spectrum keys as they are. A record whose key is missing
  gets a missing count and the flag \<open>False\<close>, not a missing flag, and is not among the
  rows selected for the chimeric-only output, which \<open>save_outputs\<close> writes as
  \<open>psm_chimeric.csv\<close>.
\<close>

theorem absent_key_not_chimeric:
  assumes "add_derived_columns env df = Inr df'"
  shows "column ''spectrum_key'' df' = column ''spectrum_key'' df \<and>
         (\<forall>r \<in> set (rows df').
            r ''spectrum_key'' = PNone \<longrightarrow>
              r ''n_psm'' = PNone \<and> r ''is_chimeric'' = PBool False \<and>
              r \<notin> set (rows (select_true ''is_chimeric'' df'))) \<and>
         map_of (save_outputs df' s) ''psm_chimeric.csv'' =
           Some (Table (select_true ''is_chimeric'' df'))"
proof -
  have keys: "column ''spectrum_key'' df' = column ''spectrum_key'' df"
    and cells: "\<And>r. r \<in> set (rows df') \<Longrightarrow> chimeric_cells df r"
    using add_derived_columns_rows [OF assms] by simp_all
  have "r ''n_psm'' = PNone \<and> r ''is_chimeric'' = PBool False \<and>
      r \<notin> set (rows (select_true ''is_chimeric'' df'))"
    if "r \<in> set (rows df')" and "r ''spectrum_key'' = PNone" for r
    using cells [OF that(1)] that(2)
    by (simp add: chimeric_cells_def groupby_size_def map_counts_def notna_def at_least_two_def
        select_true_def)
  then show ?thesis using keys save_outputs_chimeric by blast
qed

theorem absent_key_not_chimeric_witness:
  "\<exists>df'. add_derived_columns example_env one_without_key = Inr df' \<and>
     rows df' ! 1 \<in> set (rows df') \<and>
     (rows df' ! 1) ''spectrum_key'' = PNone \<and>
     (rows df' ! 1) ''n_psm'' = PNone \<and>
     (rows df' ! 1) ''is_chimeric'' = PBool False \<and>
     rows df' ! 1 \<notin> set (rows (select_true ''is_chimeric'' df'))"
proof -
  obtain df' where d: "add_derived_columns example_env one_without_key = Inr df'"
    using add_derived_columns_example [of one_without_key] by (auto simp add: one_without_key_def)
  have c: "column ''spectrum_key'' one_without_key = [PStr ''RunA::988'', PNone]"
    by (simp add: column_def one_without_key_def key_row_def)
  note t = absent_key_not_chimeric [OF d, of undefined]
  from t c have k: "map (\<lambda>r. r ''spectrum_key'') (rows df') = [PStr ''RunA::988'', PNone]"
    by (simp add: column_def)
  have "length (map (\<lambda>r. r ''spectrum_key'') (rows df')) = 2"
    unfolding k by simp
  then have n: "length (rows df') = 2" by simp
  have m: "rows df' ! 1 \<in> set (rows df')"
    using n by simp
  have "map (\<lambda>r. r ''spectrum_key'') (rows df') ! 1 = PNone"
    unfolding k by simp
  then have a: "(rows df' ! 1) ''spectrum_key'' = PNone"
    using n by simp
  from t m a show ?thesis using d by blast
qed

subsection \<open>The batch load\<close>

lemma lib_in_parts:
  assumes "path_name (path_parent f) = ''lib''"
  shows "''lib'' \<in> set (path_parts f)"
proof -
  from assms have ne: "butlast (comps f) \<noteq> []" and l: "last (butlast (comps f)) = ''lib''"
    by (auto simp add: path_name_def path_parent_def split: if_splits)
  then have "''lib'' \<in> set (butlast (comps f))"
    using last_in_set [of "butlast (comps f)"] by simp
  then have "''lib'' \<in> set (comps f)" by (rule in_set_butlastD)
  then show ?thesis by (simp add: path_parts_def)
qed

lemma load_lib_None:
  "path_name (path_parent f) = ''lib'' \<Longrightarrow> load_single_psm_file env f = None"
  by (simp add: load_single_psm_file_def)

lemma find_psm_files_no_lib:
  "path_name (path_parent f) = ''lib'' \<Longrightarrow> f \<notin> set (find_psm_files env d)"
  using lib_in_parts [of f] by (simp add: find_psm_files_def)

lemma map_filter_append:
  "List.map_filter g (xs @ ys) = List.map_filter g xs @ List.map_filter g ys"
  by (simp add: List.map_filter_def)

lemma load_all_skip:
  assumes "load_single_psm_file env f = None"
  shows "load_all env (xs @ f # ys) = load_all env (xs @ ys)"
  using assms by (simp add: load_all_def dataframes_def map_filter_append List.map_filter_def)

lemma loaded_main:
  "loaded (main env a) = [] \<or> (\<exists>d. loaded (main env a) = find_psm_files env d)"
  by (auto simp add: main_def config_error_def stopped_def Let_def
      split: option.splits sum.splits)

text \<open>
  C6. A file whose containing folder is named \<open>lib\<close> is refused by the loader whatever
  it holds, is not among the files \<open>main\<close> finds, is never handed to the loader by
  \<open>main\<close>, and, were it in the list of files, would change nothing in the consolidated
  table.
\<close>

theorem lib_folder_excluded:
  assumes "path_name (path_parent f) = ''lib''"
  shows "load_single_psm_file env f = None \<and>
         f \<notin> set (find_psm_files env d) \<and>
         f \<notin> set (loaded (main env a)) \<and>
         load_all env (xs @ f # ys) = load_all env (xs @ ys)"
proof -
  have 1: "load_single_psm_file env f = None"
    using assms by (rule load_lib_None)
  have 2: "\<And>d. f \<notin> set (find_psm_files env d)"
    using assms by (rule find_psm_files_no_lib)
  have 3: "f \<notin> set (loaded (main env a))"
    using loaded_main [of env a] 2 by auto
  show ?thesis using 1 2 3 load_all_skip [OF 1] by simp
qed

theorem lib_folder_excluded_witness:
  "path_name (path_parent lib_file) = ''lib'' \<and>
   read_csv example_env lib_file = Some example_table \<and>
   load_single_psm_file example_env lib_file = None \<and>
   lib_file \<notin> set (find_psm_files example_env data_dir) \<and>
   load_all example_env [lib_file, run_file] = load_all example_env [run_file]"
proof -
  have n: "path_name (path_parent lib_file) = ''lib''"
    by (simp add: lib_file_def joinpath_def path_parent_def path_name_def data_dir_def)
  have r: "read_csv example_env lib_file = Some example_table"
    by (simp add: example_env_def)
  show ?thesis
    using lib_folder_excluded [OF n, of example_env data_dir example_args "[]" "[run_file]"] n r
    by simp
qed

lemma mset_map_filter:
  "mset (List.map_filter g xs) = image_mset (\<lambda>x. the (g x)) (filter_mset (\<lambda>x. g x \<noteq> None) (mset xs))"
  by (simp add: List.map_filter_def comp_def)

lemma set_first_occurrences: "set (first_occurrences cs) = set cs"
  by (simp add: first_occurrences_def)

lemma mset_concat_map: "mset (concat (map f xs)) = (\<Sum>x \<in># mset xs. mset (f x))"
  by (induction xs) simp_all

lemma mset_dataframes:
  assumes "mset files1 = mset files2"
  shows "mset (dataframes env files1) = mset (dataframes env files2)"
proof -
  have "mset (map (load_single_psm_file env) files1) = mset (map (load_single_psm_file env) files2)"
    using assms by (metis mset_map)
  then show ?thesis
    unfolding dataframes_def Let_def mset_map_filter by (rule arg_cong)
qed

text \<open>
  C8. The loader is a function of the file, so two batch loads of the same unchanged
  files differ at most in the order of the files. Whatever the two orders, both loads
  fail or both give a consolidated table, and the two tables have the same number of
  rows, the same rows as multisets and the same columns.
\<close>

theorem batch_load_order_independent:
  assumes "mset files1 = mset files2"
  shows "(\<forall>e. load_all env files1 = Inl e \<longleftrightarrow> load_all env files2 = Inl e) \<and>
         (\<forall>t1 t2. load_all env files1 = Inr t1 \<and> load_all env files2 = Inr t2 \<longrightarrow>
            length (rows t1) = length (rows t2) \<and>
            mset (rows t1) = mset (rows t2) \<and>
            set (columns t1) = set (columns t2)) \<and>
         ((\<exists>t1. load_all env files1 = Inr t1) \<longleftrightarrow> (\<exists>t2. load_all env files2 = Inr t2))"
proof -
  define ds1 where "ds1 = dataframes env files1"
  define ds2 where "ds2 = dataframes env files2"
  have m: "mset ds1 = mset ds2"
    unfolding ds1_def ds2_def using assms by (rule mset_dataframes)
  have l1: "load_all env files1 = concat_frames ds1" and l2: "load_all env files2 = concat_frames ds2"
    by (simp_all add: load_all_def ds1_def ds2_def)
  have e: "ds1 = [] \<longleftrightarrow> ds2 = []"
    using m by (metis mset_zero_iff)
  have s: "set ds1 = set ds2"
    using m by (rule mset_eq_setD)
  have r: "mset (concat (map own_cells ds1)) = mset (concat (map own_cells ds2))"
    by (simp add: mset_concat_map m)
  have c: "set (first_occurrences (concat (map columns ds1))) =
           set (first_occurrences (concat (map columns ds2)))"
    by (simp add: set_first_occurrences s)
  have n: "length (concat (map own_cells ds1)) = length (concat (map own_cells ds2))"
    using r by (rule mset_eq_length)
  show ?thesis
    unfolding l1 l2 concat_frames_def using e r c n by auto
qed

lemma other_run_folder: "path_name (path_parent other_run_file) = ''118_60_1_6mz_1''"
  by (simp add: other_run_file_def joinpath_def path_parent_def path_name_def data_dir_def)

lemma example_loads:
  "\<exists>a b. load_single_psm_file example_env run_file = Some a \<and>
         load_single_psm_file example_env other_run_file = Some b"
proof -
  have t: "rows example_table \<noteq> []" "''Spectrum'' \<in> set (columns example_table)"
    by (simp_all add: example_table_def)
  have "\<exists>a. load_single_psm_file example_env run_file = Some a"
    using load_single_psm_file_rows [of run_file example_env example_table] t
    by (auto simp add: run_folder example_env_def)
  moreover have "\<exists>b. load_single_psm_file example_env other_run_file = Some b"
    using load_single_psm_file_rows [of other_run_file example_env example_table] t
    by (auto simp add: other_run_folder example_env_def)
  ultimately show ?thesis by blast
qed

theorem batch_load_order_independent_witness:
  "\<exists>t1 t2. load_all example_env [run_file, other_run_file] = Inr t1 \<and>
           load_all example_env [other_run_file, run_file] = Inr t2 \<and>
           length (rows t1) = length (rows t2) \<and>
           mset (rows t1) = mset (rows t2) \<and>
           set (columns t1) = set (columns t2)"
proof -
  have m: "mset [run_file, other_run_file] = mset [other_run_file, run_file]"
    by (simp add: add_mset_commute)
  obtain a b where "load_single_psm_file example_env run_file = Some a"
    and "load_single_psm_file example_env other_run_file = Some b"
    using example_loads by blast
  then have "\<exists>t1. load_all example_env [run_file, other_run_file] = Inr t1"
    and "\<exists>t2. load_all example_env [other_run_file, run_file] = Inr t2"
    by (simp_all add: load_all_def dataframes_def concat_frames_def)
  then show ?thesis
    using batch_load_order_independent [OF m, of example_env] by blast
qed

subsection \<open>Configuration error\<close>

text \<open>
  C9. When no input directory is given on the command line (the option is absent or
  empty) and the search finds none, \<open>main\<close> prints the error and the instruction to pass
  \<open>--psm-dir\<close>, exits with status 1, hands no file to the loader and writes no output.
\<close>

theorem main_config_error:
  assumes "psm_dir a = None \<or> psm_dir a = Some []"
    and "find_psm_directory env = None"
  shows "ending (main env a) = SysExit 1 \<and>
         error_report (main env a) =
           [''ERROR: Cannot find PSM directory!'',
            ''   Specify with: --psm-dir /path/to/fragpipe/''] \<and>
         loaded (main env a) = [] \<and>
         written (main env a) = []"
  using assms by (auto simp add: main_def config_error_def)

theorem main_config_error_witness:
  "ending (main example_env example_args) = SysExit 1 \<and>
   loaded (main example_env example_args) = [] \<and>
   written (main example_env example_args) = []"
proof -
  have f: "find_psm_directory example_env = None"
    by (simp add: find_psm_directory_def example_env_def joinpath_def data_dir_def)
  have a: "psm_dir example_args = None \<or> psm_dir example_args = Some []"
    by (simp add: example_args_def)
  show ?thesis using main_config_error [OF a f] by simp
qed

end
